theory Spec2Isabelle
  imports Complex_Main "HOL-Library.Sublist" "HOL-Library.AList"
begin

section \<open>Text primitives\<close>

text \<open>
  Python strings are modelled as \<open>string\<close> (lists of 8-bit characters) holding the
  UTF-8 bytes of the text. The character classes below are those of Python on the
  ASCII range: \<open>str.strip()\<close> and the regular expression class \<open>\s\<close> both use the
  whitespace set TAB, LF, VT, FF, CR, FS, GS, RS, US and SPACE, and \<open>str.upper()\<close> maps
  \<open>a\<close>..\<open>z\<close> to \<open>A\<close>..\<open>Z\<close>. Bytes from 128 upwards are left unchanged and are not
  whitespace.
\<close>

definition isspace :: "char \<Rightarrow> bool" where
  "isspace c = (c \<in> {CHR 0x09, CHR 0x0A, CHR 0x0B, CHR 0x0C, CHR 0x0D,
                     CHR 0x1C, CHR 0x1D, CHR 0x1E, CHR 0x1F, CHR '' ''})"

definition upper_char :: "char \<Rightarrow> char" where
  "upper_char c =
     (let n = (of_char c :: nat) in if 97 \<le> n \<and> n \<le> 122 then char_of (n - 32) else c)"

text \<open>\<open>s.upper()\<close>\<close>

definition upper :: "string \<Rightarrow> string" where
  "upper s = map upper_char s"

text \<open>\<open>s.strip()\<close>\<close>

definition strip :: "string \<Rightarrow> string" where
  "strip s = rev (dropWhile isspace (rev (dropWhile isspace s)))"

text \<open>\<open>re.sub(r'\s+', ' ', s)\<close>: every maximal run of whitespace becomes one space.\<close>

function collapse_ws :: "string \<Rightarrow> string" where
  "collapse_ws [] = []"
| "collapse_ws (c # cs) =
     (if isspace c then CHR '' '' # collapse_ws (dropWhile isspace cs)
      else c # collapse_ws cs)"
  by pat_completeness auto
termination
  by (relation "measure length") (auto simp: less_Suc_eq_le length_dropWhile_le)

text \<open>The character class \<open>[A-Z]\<close>.\<close>

definition is_AZ :: "char \<Rightarrow> bool" where
  "is_AZ c = (65 \<le> (of_char c :: nat) \<and> (of_char c :: nat) \<le> 90)"

text \<open>
  \<open>re.sub(r'^\([A-Z]\)\s*', '', s)\<close>: the pattern is anchored at the start of the
  string, so it is replaced at most once.
\<close>

fun strip_marker :: "string \<Rightarrow> string" where
  "strip_marker (a # b # c # rest) =
     (if a = CHR ''('' \<and> is_AZ b \<and> c = CHR '')'' then dropWhile isspace rest
      else a # b # c # rest)"
| "strip_marker s = s"

text \<open>\<open>sub in s\<close> on strings.\<close>

fun contains :: "string \<Rightarrow> string \<Rightarrow> bool" where
  "contains [] sub = (sub = [])"
| "contains (c # cs) sub = (prefix sub (c # cs) \<or> contains cs sub)"

section \<open>Normalizer\<close>

definition normalize_code :: "string \<Rightarrow> string" where
  "normalize_code code = collapse_ws (upper (strip code))"

definition normalize_name :: "string \<Rightarrow> string" where
  "normalize_name name =
     collapse_ws (filter (\<lambda>c. c \<noteq> CHR '','') (strip_marker (upper (strip name))))"

section \<open>Code decomposer\<close>

definition parse_billing_code :: "string \<Rightarrow> string list" where
  "parse_billing_code code_str0 =
     (let code_str = upper (strip code_str0) in
        (if contains code_str ''M24'' then [''M 24''] else []) @
        (if contains code_str ''M6'' \<or> contains code_str ''M 6'' then [''M 6''] else []) @
        (if contains code_str ''K-1'' then [''K-1''] else []) @
        (if contains code_str ''RECOND'' then [''RECOND''] else []) @
        (if contains code_str ''K3/4'' then [''K3/4''] else []) @
        (if contains code_str ''K20'' then [''K 20''] else []) @
        (if contains code_str ''K15'' then [''K 15''] else []))"

section \<open>Spreadsheet cells\<close>

text \<open>
  The extractors walk a pandas data frame read without header. A cell is blank (NaN,
  None or NaT, for which \<open>pd.notna\<close> is false), a text, an integer, a float or a native
  date. A float is given by its (finite) value; a date by its day of the month. The
  decimal rendering of binary floats and the rendering of timestamps are not modelled:
  a float and a date carry the text that Python's \<open>str()\<close> gives for them.
\<close>

datatype cell =
    Blank
  | StrC string
  | IntC int
  | FloatC rat string
  | DateC nat string

type_synonym row = "cell list"

datatype error = IndexError

definition digit_char :: "nat \<Rightarrow> char" where
  "digit_char n = char_of (48 + n)"

function str_nat :: "nat \<Rightarrow> string" where
  "str_nat n =
     (if n < 10 then [digit_char n] else str_nat (n div 10) @ [digit_char (n mod 10)])"
  by pat_completeness auto
termination
  by (relation "measure id") auto

declare str_nat.simps [simp del]

text \<open>\<open>str(i)\<close> for an integer.\<close>

definition str_int :: "int \<Rightarrow> string" where
  "str_int i = (if i < 0 then CHR ''-'' # str_nat (nat (- i)) else str_nat (nat i))"

text \<open>\<open>int(x)\<close> for a float: truncation towards zero.\<close>

definition int_of_float :: "rat \<Rightarrow> int" where
  "int_of_float x = (if x < 0 then - \<lfloor>- x\<rfloor> else \<lfloor>x\<rfloor>)"

text \<open>\<open>str(c)\<close>; a blank cell has been replaced by \<open>None\<close> where the code converts it.\<close>

fun str_cell :: "cell \<Rightarrow> string" where
  "str_cell Blank = ''None''"
| "str_cell (StrC s) = s"
| "str_cell (IntC i) = str_int i"
| "str_cell (FloatC x t) = t"
| "str_cell (DateC d t) = t"

text \<open>
  The truth value of \<open>c if pd.notna(c) else None\<close>: \<open>None\<close>, the empty text and
  zero are false, a timestamp is true.
\<close>

fun truthy :: "cell \<Rightarrow> bool" where
  "truthy Blank = False"
| "truthy (StrC s) = (s \<noteq> [])"
| "truthy (IntC i) = (i \<noteq> 0)"
| "truthy (FloatC x t) = (x \<noteq> 0)"
| "truthy (DateC d t) = True"

text \<open>\<open>row.iloc[i] if len(row) > i and pd.notna(row.iloc[i]) else None\<close>\<close>

definition cell_at :: "row \<Rightarrow> nat \<Rightarrow> cell" where
  "cell_at row i = (if i < length row then row ! i else Blank)"

text \<open>
  \<open>str(int(c)) if isinstance(c, float) else str(c)\<close>: the file number as text.
\<close>

fun dossier_text :: "cell \<Rightarrow> string" where
  "dossier_text (FloatC x t) = str_int (int_of_float x)"
| "dossier_text c = str_cell c"

section \<open>Date texts\<close>

definition is_digit :: "char \<Rightarrow> bool" where
  "is_digit c = (48 \<le> (of_char c :: nat) \<and> (of_char c :: nat) \<le> 57)"

definition is_sep :: "char \<Rightarrow> bool" where
  "is_sep c = (c = CHR ''/'' \<or> c = CHR ''-'')"

text \<open>\<open>int(ds)\<close> for a text of decimal digits.\<close>

definition int_of_digits :: "string \<Rightarrow> nat" where
  "int_of_digits ds = foldl (\<lambda>n c. 10 * n + ((of_char c :: nat) - 48)) 0 ds"

text \<open>
  \<open>(\d{1,2})[/\-]\<close> at the start of a text: the group and the rest after the
  separator. Two digits are tried first; one digit is the only other way to match.
\<close>

fun digits12 :: "string \<Rightarrow> (string \<times> string) option" where
  "digits12 (a # b # c # rest) =
     (if is_digit a \<and> is_digit b \<and> is_sep c then Some ([a, b], rest)
      else if is_digit a \<and> is_sep b then Some ([a], c # rest)
      else None)"
| "digits12 [a, b] = (if is_digit a \<and> is_sep b then Some ([a], []) else None)"
| "digits12 s = None"

text \<open>
  \<open>re.search(r'^(\d{1,2})[/\-](\d{1,2})[/\-](\d{4})', s)\<close>, giving
  \<open>int(match.group(1))\<close> when the text matches.
\<close>

definition match_date :: "string \<Rightarrow> nat option" where
  "match_date s =
     (case digits12 s of
        None \<Rightarrow> None
      | Some (d, r) \<Rightarrow>
          (case digits12 r of
             None \<Rightarrow> None
           | Some (m, y) \<Rightarrow>
               if 4 \<le> length y \<and> list_all is_digit (take 4 y)
               then Some (int_of_digits d) else None))"

section \<open>Billing records\<close>

datatype origin = MA_FACTURATION | RAPPORT_HOPITAL

record billing_record =
  date :: nat
  dossier :: string
  nom :: "string option"
  code :: string
  source :: origin

section \<open>Personal-log extractor\<close>

text \<open>
  One iteration of the loop of \<open>parse_my_billing\<close> over the rows of the data frame;
  the state is \<open>current_date\<close> and the records appended so far. \<open>row.iloc[0]\<close> raises
  on a row without columns.
\<close>

definition my_row ::
  "nat option \<times> billing_record list \<Rightarrow> row \<Rightarrow> error + nat option \<times> billing_record list"
where
  "my_row st row =
     (case row of
        [] \<Rightarrow> Inl IndexError
      | date_val # _ \<Rightarrow>
          let current_date =
                (if truthy date_val then
                   (case date_val of
                      DateC d t \<Rightarrow> Some d
                    | StrC s \<Rightarrow> (case match_date s of Some d \<Rightarrow> Some d | None \<Rightarrow> fst st)
                    | _ \<Rightarrow> fst st)
                 else fst st);
              dossier = cell_at row 1;
              nom = cell_at row 2;
              codes_str = cell_at row 3
          in (case current_date of
                None \<Rightarrow> Inr (current_date, snd st)
              | Some day \<Rightarrow>
                  if truthy dossier \<and> truthy nom \<and> truthy codes_str \<and> day \<noteq> 0
                  then Inr (current_date,
                         snd st @
                         map (\<lambda>code. \<lparr>date = day, dossier = dossier_text dossier,
                                       nom = Some (normalize_name (str_cell nom)),
                                       code = normalize_code code,
                                       source = MA_FACTURATION\<rparr>)
                             (parse_billing_code (str_cell codes_str)))
                  else Inr (current_date, snd st)))"

fun my_rows ::
  "nat option \<times> billing_record list \<Rightarrow> row list \<Rightarrow> error + nat option \<times> billing_record list"
where
  "my_rows st [] = Inr st"
| "my_rows st (row # rows) =
     (case my_row st row of Inl e \<Rightarrow> Inl e | Inr st' \<Rightarrow> my_rows st' rows)"

definition parse_my_billing :: "row list \<Rightarrow> error + billing_record list" where
  "parse_my_billing df =
     (case my_rows (None, []) df of Inl e \<Rightarrow> Inl e | Inr st \<Rightarrow> Inr (snd st))"

section \<open>Facility-report extractor\<close>

definition name_headers :: "string list" where
  "name_headers = [''PATIENT'', ''NOM'', ''NOM PATIENT'']"

text \<open>The degree sign of \<open>N\<degree>\<close> is the two bytes C2 B0.\<close>

definition dossier_headers :: "string list" where
  "dossier_headers =
     [''DOSSIER'', ''N'' @ [CHR 0xC2, CHR 0xB0] @ '' DOSSIER'', ''NUMERO DOSSIER'',
      ''N'' @ [CHR 0xC2, CHR 0xB0] @ ''DOSSIER'']"

definition code_headers :: "string list" where
  "code_headers = [''CODE'', ''CODE INTERNE'', ''CODES'']"

text \<open>\<open>c and str(c).strip().upper() in labels\<close>\<close>

definition is_header :: "string list \<Rightarrow> cell \<Rightarrow> bool" where
  "is_header labels c = (truthy c \<and> upper (strip (str_cell c)) \<in> set labels)"

text \<open>
  The days billed on a row: \<open>day\<close> in \<open>range(1, 32)\<close> whose column \<open>6 + (day - 1)\<close>
  exists and holds a non-blank cell with a non-empty stripped text.
\<close>

definition billed_days :: "row \<Rightarrow> nat list" where
  "billed_days row =
     filter (\<lambda>day. 6 + (day - 1) < length row \<and>
                   row ! (6 + (day - 1)) \<noteq> Blank \<and>
                   strip (str_cell (row ! (6 + (day - 1)))) \<noteq> [])
            [1..<32]"

text \<open>
  One iteration of the loop of \<open>parse_hospital_report\<close>; the state is \<open>current_name\<close>,
  \<open>current_dossier\<close> and the records appended so far.
\<close>

definition hosp_row ::
  "string option \<times> string option \<times> billing_record list \<Rightarrow> row \<Rightarrow>
   error + string option \<times> string option \<times> billing_record list"
where
  "hosp_row st row =
     (case row of
        [] \<Rightarrow> Inl IndexError
      | nom_val # _ \<Rightarrow>
          let dossier_val = cell_at row 1;
              code_val = cell_at row 2
          in if is_header name_headers nom_val then Inr st
             else if is_header dossier_headers dossier_val then Inr st
             else if is_header code_headers code_val then Inr st
             else
               let current_name =
                     (if truthy nom_val then Some (normalize_name (str_cell nom_val))
                      else fst st);
                   current_dossier =
                     (if truthy nom_val then
                        (if truthy dossier_val then Some (dossier_text dossier_val) else None)
                      else fst (snd st))
               in (case current_dossier of
                     None \<Rightarrow> Inr (current_name, current_dossier, snd (snd st))
                   | Some d \<Rightarrow>
                       if d \<noteq> [] \<and> truthy code_val
                       then Inr (current_name, current_dossier,
                              snd (snd st) @
                              map (\<lambda>day. \<lparr>date = day, dossier = d, nom = current_name,
                                           code = normalize_code (str_cell code_val),
                                           source = RAPPORT_HOPITAL\<rparr>)
                                  (billed_days row))
                       else Inr (current_name, current_dossier, snd (snd st))))"

fun hosp_rows ::
  "string option \<times> string option \<times> billing_record list \<Rightarrow> row list \<Rightarrow>
   error + string option \<times> string option \<times> billing_record list"
where
  "hosp_rows st [] = Inr st"
| "hosp_rows st (row # rows) =
     (case hosp_row st row of Inl e \<Rightarrow> Inl e | Inr st' \<Rightarrow> hosp_rows st' rows)"

definition parse_hospital_report :: "row list \<Rightarrow> error + billing_record list" where
  "parse_hospital_report df =
     (case hosp_rows (None, None, []) df of
        Inl e \<Rightarrow> Inl e
      | Inr st \<Rightarrow> Inr (snd (snd st)))"

section \<open>Reconciler\<close>

definition make_key :: "billing_record \<Rightarrow> string \<times> string \<times> nat" where
  "make_key r = (dossier r, code r, date r)"

text \<open>
  \<open>{make_key(r): r for r in records}\<close>: a dictionary keeps its keys in the order of
  their first insertion and the value written last, which is how \<open>AList.update\<close>
  treats an association list.
\<close>

definition index_by_key ::
  "billing_record list \<Rightarrow> ((string \<times> string \<times> nat) \<times> billing_record) list"
where
  "index_by_key records = foldl (\<lambda>d r. AList.update (make_key r) r d) [] records"

definition compare_records ::
  "billing_record list \<Rightarrow> billing_record list \<Rightarrow>
   billing_record list \<times> billing_record list \<times> billing_record list"
where
  "compare_records my_records hospital_records =
     (let my_keys = index_by_key my_records;
          hosp_keys = index_by_key hospital_records
      in (map snd (filter (\<lambda>(key, record). key \<in> fst ` set hosp_keys) my_keys),
          map snd (filter (\<lambda>(key, record). key \<notin> fst ` set hosp_keys) my_keys),
          map snd (filter (\<lambda>(key, record). key \<notin> fst ` set my_keys) hosp_keys)))"

text \<open>
  The record written last under a key: the value a dictionary built from \<open>records\<close>
  holds for it.
\<close>

definition last_write ::
  "billing_record list \<Rightarrow> string \<times> string \<times> nat \<Rightarrow> billing_record option"
where
  "last_write records k = find (\<lambda>r. make_key r = k) (rev records)"

section \<open>Auxiliary notions for the properties\<close>

text \<open>The detection table of the code decomposer: marker and emitted atomic code.\<close>

definition code_markers :: "(string \<times> string) list" where
  "code_markers =
     [(''M24'', ''M 24''), (''M6'', ''M 6''), (''M 6'', ''M 6''), (''K-1'', ''K-1''),
      (''RECOND'', ''RECOND''), (''K3/4'', ''K3/4''), (''K20'', ''K 20''), (''K15'', ''K 15'')]"




text \<open>
  The day a date cell stands for: the day of a native date, or the first group of a
  text that starts like a date; no day for any other cell.
\<close>

fun cell_day :: "cell \<Rightarrow> nat option" where
  "cell_day (DateC d t) = Some d"
| "cell_day (StrC s) = match_date s"
| "cell_day c = None"

text \<open>
  A native date has a day of the month between 1 and 31 and a non-empty rendering.
\<close>

fun cell_ok :: "cell \<Rightarrow> bool" where
  "cell_ok (DateC d t) = (1 \<le> d \<and> d \<le> 31 \<and> t \<noteq> [])"
| "cell_ok c = True"

text \<open>The atomic codes the decomposer can emit.\<close>

definition atomic_codes :: "string list" where
  "atomic_codes = [''M 24'', ''M 6'', ''K-1'', ''RECOND'', ''K3/4'', ''K 20'', ''K 15'']"

text \<open>What holds of every record of the personal log, and of the facility report.\<close>

definition good_my :: "billing_record \<Rightarrow> bool" where
  "good_my r \<longleftrightarrow> dossier r \<noteq> [] \<and> nom r \<noteq> None \<and> code r \<in> set atomic_codes \<and>
     1 \<le> date r \<and> date r \<le> 99 \<and> source r = MA_FACTURATION"

definition good_hosp :: "billing_record \<Rightarrow> bool" where
  "good_hosp r \<longleftrightarrow> dossier r \<noteq> [] \<and> nom r \<noteq> None \<and>
     1 \<le> date r \<and> date r \<le> 31 \<and> source r = RAPPORT_HOPITAL"

section \<open>Properties of the text primitives and the normalizer\<close>

lemma char_eq_nat: "c = d \<longleftrightarrow> (of_char c :: nat) = of_char d"
  by simp

lemma isspace_of_char:
  "isspace c \<longleftrightarrow> (of_char c :: nat) \<in> {9, 10, 11, 12, 13, 28, 29, 30, 31, 32}"
  unfolding isspace_def insert_iff empty_iff
  by (simp only: char_eq_nat [of c]) simp

lemma of_char_upper_char:
  "(of_char (upper_char c) :: nat) =
     (if 97 \<le> (of_char c :: nat) \<and> (of_char c :: nat) \<le> 122 then of_char c - 32 else of_char c)"
proof -
  define n where "n = (of_char c :: nat)"
  have "97 \<le> n \<and> n \<le> 122 \<Longrightarrow> (n - 32) mod 256 = n - 32" by (intro mod_less) arith
  then show ?thesis
    unfolding upper_char_def Let_def n_def [symmetric] by (simp add: n_def)
qed

lemma upper_char_idem [simp]: "upper_char (upper_char c) = upper_char c"
  by (subst char_eq_nat) (simp add: of_char_upper_char, arith)

lemma isspace_upper_char [simp]: "isspace (upper_char c) = isspace c"
  by (auto simp: isspace_of_char of_char_upper_char)


lemma upper_char_space [simp]: "upper_char (CHR '' '') = CHR '' ''"
  by (subst char_eq_nat) (simp add: of_char_upper_char)

lemma isspace_space [simp]: "isspace (CHR '' '')"
  by (simp add: isspace_def)







lemma upper_idem [simp]: "upper (upper s) = upper s"
  by (simp add: upper_def)

lemma collapse_ws_Nil_iff [simp]: "collapse_ws s = [] \<longleftrightarrow> s = []"
  by (cases s) auto
















lemma contains_iff: "contains s sub \<longleftrightarrow> (\<exists>p q. s = p @ sub @ q)"
proof (induction s)
  case Nil
  then show ?case by auto
next
  case (Cons c cs)
  have "(\<exists>p q. c # cs = p @ sub @ q) \<longleftrightarrow>
        (\<exists>q. c # cs = sub @ q) \<or> (\<exists>p q. cs = p @ sub @ q)"
  proof
    assume "\<exists>p q. c # cs = p @ sub @ q"
    then obtain p q where e: "c # cs = p @ sub @ q" by blast
    show "(\<exists>q. c # cs = sub @ q) \<or> (\<exists>p q. cs = p @ sub @ q)"
    proof (cases p)
      case Nil
      with e show ?thesis by auto
    next
      case (Cons a p')
      with e have "cs = p' @ sub @ q" by simp
      then show ?thesis by blast
    qed
  next
    assume "(\<exists>q. c # cs = sub @ q) \<or> (\<exists>p q. cs = p @ sub @ q)"
    then show "\<exists>p q. c # cs = p @ sub @ q"
    proof
      assume "\<exists>q. c # cs = sub @ q"
      then obtain q where "c # cs = [] @ sub @ q" by auto
      then show ?thesis by blast
    next
      assume "\<exists>p q. cs = p @ sub @ q"
      then obtain p q where "c # cs = (c # p) @ sub @ q" by auto
      then show ?thesis by blast
    qed
  qed
  with Cons show ?case by (simp add: prefix_def)
qed


lemma sel_simps:
  "(\<exists>m. (m, ''M 24'') \<in> set code_markers \<and> occ m) = occ ''M24''"
  "(\<exists>m. (m, ''M 6'') \<in> set code_markers \<and> occ m) = (occ ''M6'' \<or> occ ''M 6'')"
  "(\<exists>m. (m, ''K-1'') \<in> set code_markers \<and> occ m) = occ ''K-1''"
  "(\<exists>m. (m, ''RECOND'') \<in> set code_markers \<and> occ m) = occ ''RECOND''"
  "(\<exists>m. (m, ''K3/4'') \<in> set code_markers \<and> occ m) = occ ''K3/4''"
  "(\<exists>m. (m, ''K 20'') \<in> set code_markers \<and> occ m) = occ ''K20''"
  "(\<exists>m. (m, ''K 15'') \<in> set code_markers \<and> occ m) = occ ''K15''"
  unfolding code_markers_def by auto

lemma marker_code:
  "(m, c) \<in> set code_markers \<Longrightarrow>
     c \<in> set [''M 24'', ''M 6'', ''K-1'', ''RECOND'', ''K3/4'', ''K 20'', ''K 15'']"
  unfolding code_markers_def by auto

lemma parse_billing_code_filter:
  "parse_billing_code x =
     filter (\<lambda>c. \<exists>m. (m, c) \<in> set code_markers \<and> contains (upper (strip x)) m)
       [''M 24'', ''M 6'', ''K-1'', ''RECOND'', ''K3/4'', ''K 20'', ''K 15'']"
  unfolding filter.simps sel_simps
  by (simp add: parse_billing_code_def Let_def)


text \<open>
  Claim C2. For every text, the code decomposer returns exactly the atomic codes of the
  table whose marker occurs as a substring of the trimmed, uppercased text, each once
  and in the order of the table, whatever surrounds the markers; the tests are
  independent, and a text with no marker gives the empty list.
\<close>

theorem parse_billing_code_markers:
  "parse_billing_code x =
     filter (\<lambda>c. \<exists>m. (m, c) \<in> set code_markers \<and> (\<exists>p q. upper (strip x) = p @ m @ q))
       [''M 24'', ''M 6'', ''K-1'', ''RECOND'', ''K3/4'', ''K 20'', ''K 15''] \<and>
   set (parse_billing_code x) =
     {c. \<exists>m. (m, c) \<in> set code_markers \<and> (\<exists>p q. upper (strip x) = p @ m @ q)} \<and>
   ((\<forall>m c. (m, c) \<in> set code_markers \<longrightarrow> \<not> (\<exists>p q. upper (strip x) = p @ m @ q)) \<longrightarrow>
      parse_billing_code x = [])"
proof -
  define codes where
    "codes = [''M 24'', ''M 6'', ''K-1'', ''RECOND'', ''K3/4'', ''K 20'', ''K 15'']"
  define sel where
    "sel c \<longleftrightarrow> (\<exists>m. (m, c) \<in> set code_markers \<and> (\<exists>p q. upper (strip x) = p @ m @ q))"
    for c
  have 1: "parse_billing_code x = filter sel codes"
    unfolding sel_def codes_def contains_iff [symmetric] by (rule parse_billing_code_filter)
  have mc: "c \<in> set codes" if "sel c" for c
    using that marker_code unfolding sel_def codes_def by blast
  have 2: "set (parse_billing_code x) = {c. sel c}"
    unfolding 1 using mc by auto
  have 3: "(\<forall>m c. (m, c) \<in> set code_markers \<longrightarrow> \<not> (\<exists>p q. upper (strip x) = p @ m @ q)) \<longrightarrow>
      parse_billing_code x = []"
    unfolding 1 by (auto simp: filter_empty_conv sel_def)
  from 1 2 3 show ?thesis unfolding sel_def codes_def by blast
qed

theorem parse_billing_code_markers_witness:
  "parse_billing_code ''k-1 + Recond'' = [''K-1'', ''RECOND''] \<and>
   set (parse_billing_code ''k-1 + Recond'') =
     {c. \<exists>m. (m, c) \<in> set code_markers \<and>
          (\<exists>p q. upper (strip ''k-1 + Recond'') = p @ m @ q)}"
proof -
  have "parse_billing_code ''k-1 + Recond'' = [''K-1'', ''RECOND'']" by code_simp
  with parse_billing_code_markers [of "''k-1 + Recond''"] show ?thesis by blast
qed






section \<open>Properties of the reconciler\<close>

lemma find_app:
  "find P (xs @ ys) = (case find P xs of None \<Rightarrow> find P ys | Some x \<Rightarrow> Some x)"
  by (induction xs) auto

lemma find_SomeD: "find P xs = Some x \<Longrightarrow> P x \<and> x \<in> set xs"
  by (induction xs) (auto split: if_splits)

lemma index_fold_keys:
  "fst ` set (foldl (\<lambda>d r. AList.update (make_key r) r d) d0 rs) =
     fst ` set d0 \<union> make_key ` set rs"
  by (induction rs arbitrary: d0) (auto simp: AList.dom_update)

lemma index_fold_distinct:
  "distinct (map fst d0) \<Longrightarrow>
     distinct (map fst (foldl (\<lambda>d r. AList.update (make_key r) r d) d0 rs))"
  by (induction rs arbitrary: d0) (auto simp: AList.distinct_update)

lemma index_fold_map_of:
  "map_of (foldl (\<lambda>d r. AList.update (make_key r) r d) d0 rs) k =
     (case find (\<lambda>r. make_key r = k) (rev rs) of
        Some r \<Rightarrow> Some r
      | None \<Rightarrow> map_of d0 k)"
proof (induction rs arbitrary: d0)
  case Nil
  then show ?case by simp
next
  case (Cons r rs)
  show ?case
    by (simp add: Cons.IH AList.update_conv' find_app split: option.splits)
qed

lemma index_keys: "fst ` set (index_by_key rs) = make_key ` set rs"
  by (simp add: index_by_key_def index_fold_keys)

lemma index_distinct: "distinct (map fst (index_by_key rs))"
  by (simp add: index_by_key_def index_fold_distinct)

lemma index_map_of: "map_of (index_by_key rs) k = last_write rs k"
  by (simp add: index_by_key_def index_fold_map_of last_write_def split: option.splits)

lemma index_entry: "(k, r) \<in> set (index_by_key rs) \<longleftrightarrow> last_write rs k = Some r"
  using index_distinct [of rs] index_map_of [of rs k] by (metis map_of_eq_Some_iff)

lemma last_write_key: "last_write rs k = Some r \<Longrightarrow> make_key r = k \<and> r \<in> set rs"
  unfolding last_write_def by (auto dest: find_SomeD)

lemma index_entry_key: "(k, r) \<in> set (index_by_key rs) \<Longrightarrow> k = make_key r"
  by (simp add: index_entry last_write_key)

lemma index_select_set:
  "set (map snd (filter (\<lambda>(key, record). Q key) (index_by_key rs))) =
     {r. last_write rs (make_key r) = Some r \<and> Q (make_key r)}"
proof -
  have "r \<in> set (map snd (filter (\<lambda>(key, record). Q key) (index_by_key rs))) \<longleftrightarrow>
        last_write rs (make_key r) = Some r \<and> Q (make_key r)" for r
  proof
    assume "r \<in> set (map snd (filter (\<lambda>(key, record). Q key) (index_by_key rs)))"
    then obtain k where k: "(k, r) \<in> set (index_by_key rs)" "Q k" by auto
    then have "last_write rs k = Some r" by (simp add: index_entry)
    moreover from this have "make_key r = k" by (simp add: last_write_key)
    ultimately show "last_write rs (make_key r) = Some r \<and> Q (make_key r)"
      using k by simp
  next
    assume "last_write rs (make_key r) = Some r \<and> Q (make_key r)"
    then have "(make_key r, r) \<in> set (index_by_key rs)" "Q (make_key r)"
      by (simp_all add: index_entry)
    then show "r \<in> set (map snd (filter (\<lambda>(key, record). Q key) (index_by_key rs)))"
      by force
  qed
  then show ?thesis by blast
qed

lemma index_select_keys:
  "map make_key (map snd (filter (\<lambda>(key, record). Q key) (index_by_key rs))) =
     filter Q (map fst (index_by_key rs))"
proof -
  have "\<forall>p \<in> set (index_by_key rs). make_key (snd p) = fst p"
    using index_entry_key by force
  then have "map (make_key \<circ> snd) (filter (\<lambda>(key, record). Q key) (index_by_key rs)) =
        map fst (filter (\<lambda>(key, record). Q key) (index_by_key rs))"
    by (intro map_cong) auto
  moreover have "filter (\<lambda>(key, record). Q key) (index_by_key rs) =
        filter (Q \<circ> fst) (index_by_key rs)"
    by (intro filter_cong) auto
  ultimately show ?thesis by (simp add: filter_map)
qed

lemma compare_records_unfold:
  assumes "compare_records my hosp = (matched, only_in_my, only_in_hospital)"
  shows "matched =
           map snd (filter (\<lambda>(key, record). key \<in> make_key ` set hosp) (index_by_key my))"
    and "only_in_my =
           map snd (filter (\<lambda>(key, record). key \<notin> make_key ` set hosp) (index_by_key my))"
    and "only_in_hospital =
           map snd (filter (\<lambda>(key, record). key \<notin> make_key ` set my) (index_by_key hosp))"
  using assms by (simp_all add: compare_records_def Let_def index_keys)

lemma compare_records_keys:
  assumes "compare_records my hosp = (matched, only_in_my, only_in_hospital)"
  shows "map make_key matched =
           filter (\<lambda>k. k \<in> make_key ` set hosp) (map fst (index_by_key my))"
    and "map make_key only_in_my =
           filter (\<lambda>k. k \<notin> make_key ` set hosp) (map fst (index_by_key my))"
    and "map make_key only_in_hospital =
           filter (\<lambda>k. k \<notin> make_key ` set my) (map fst (index_by_key hosp))"
  unfolding compare_records_unfold [OF assms] by (rule index_select_keys)+

text \<open>
  Claim C1. The reconciler builds one dictionary per side under the key
  (file number, code, day), the record written last winning among duplicates. The matched
  records are the personal-side representatives of the keys present on both sides, the
  personal-only records those of the keys absent from the facility side, and the
  facility-only records the facility-side representatives of the keys absent from the
  personal side. Hence the keys of matched and personal-only records are exactly the
  distinct keys of the personal input, and those of matched and facility-only records
  exactly the distinct keys of the facility input, each key once.
\<close>

theorem compare_records_partition:
  "compare_records my hosp = (matched, only_in_my, only_in_hospital) \<Longrightarrow>
     map_of (index_by_key my) = last_write my \<and>
     map_of (index_by_key hosp) = last_write hosp \<and>
     set matched =
       {r. last_write my (make_key r) = Some r \<and> make_key r \<in> make_key ` set hosp} \<and>
     set only_in_my =
       {r. last_write my (make_key r) = Some r \<and> make_key r \<notin> make_key ` set hosp} \<and>
     set only_in_hospital =
       {r. last_write hosp (make_key r) = Some r \<and> make_key r \<notin> make_key ` set my} \<and>
     make_key ` set (matched @ only_in_my) = make_key ` set my \<and>
     distinct (map make_key (matched @ only_in_my)) \<and>
     make_key ` set (matched @ only_in_hospital) = make_key ` set hosp \<and>
     distinct (map make_key (matched @ only_in_hospital))"
proof -
  assume eq: "compare_records my hosp = (matched, only_in_my, only_in_hospital)"
  let ?A = "index_by_key my" and ?B = "index_by_key hosp"
  let ?KA = "make_key ` set my" and ?KB = "make_key ` set hosp"
  note m = compare_records_unfold(1) [OF eq]
    and a = compare_records_unfold(2) [OF eq]
    and b = compare_records_unfold(3) [OF eq]
  note km = compare_records_keys(1) [OF eq]
    and ka = compare_records_keys(2) [OF eq]
    and kb = compare_records_keys(3) [OF eq]
  have sA: "set (map fst ?A) = ?KA" and sB: "set (map fst ?B) = ?KB"
    using index_keys by simp_all
  have dA: "distinct (map fst ?A)" and dB: "distinct (map fst ?B)"
    by (rule index_distinct)+
  have 1: "map_of ?A = last_write my" "map_of ?B = last_write hosp"
    by (rule ext, rule index_map_of)+
  have 2: "set matched = {r. last_write my (make_key r) = Some r \<and> make_key r \<in> ?KB}"
    unfolding m by (rule index_select_set)
  have 3: "set only_in_my = {r. last_write my (make_key r) = Some r \<and> make_key r \<notin> ?KB}"
    unfolding a by (rule index_select_set)
  have 4: "set only_in_hospital =
      {r. last_write hosp (make_key r) = Some r \<and> make_key r \<notin> ?KA}"
    unfolding b by (rule index_select_set)
  have "set (map make_key matched) \<union> set (map make_key only_in_my) = ?KA"
    unfolding km ka using sA by auto
  then have 5: "make_key ` set (matched @ only_in_my) = ?KA" by (simp add: image_Un)
  have 6: "distinct (map make_key (matched @ only_in_my))"
    unfolding map_append km ka using dA by auto
  have "set (map make_key matched) \<union> set (map make_key only_in_hospital) = ?KB"
    unfolding km kb using sA sB by auto
  then have 7: "make_key ` set (matched @ only_in_hospital) = ?KB" by (simp add: image_Un)
  have 8: "distinct (map make_key (matched @ only_in_hospital))"
    unfolding map_append km kb using dA dB sA by auto
  show ?thesis using 1 2 3 4 5 6 7 8 by blast
qed

theorem compare_records_partition_witness:
  "compare_records
     [\<lparr>date = 5, dossier = ''101'', nom = Some ''MARTIN'', code = ''K-1'',
       source = MA_FACTURATION\<rparr>,
      \<lparr>date = 5, dossier = ''101'', nom = Some ''MARTIN P'', code = ''K-1'',
       source = MA_FACTURATION\<rparr>,
      \<lparr>date = 7, dossier = ''101'', nom = Some ''MARTIN'', code = ''K-1'',
       source = MA_FACTURATION\<rparr>]
     [\<lparr>date = 5, dossier = ''101'', nom = Some ''MARTIN'', code = ''K-1'',
       source = RAPPORT_HOPITAL\<rparr>,
      \<lparr>date = 6, dossier = ''101'', nom = Some ''MARTIN'', code = ''M 6'',
       source = RAPPORT_HOPITAL\<rparr>]
   = ([\<lparr>date = 5, dossier = ''101'', nom = Some ''MARTIN P'', code = ''K-1'',
        source = MA_FACTURATION\<rparr>],
      [\<lparr>date = 7, dossier = ''101'', nom = Some ''MARTIN'', code = ''K-1'',
        source = MA_FACTURATION\<rparr>],
      [\<lparr>date = 6, dossier = ''101'', nom = Some ''MARTIN'', code = ''M 6'',
        source = RAPPORT_HOPITAL\<rparr>]) \<and>
   make_key `
     set ([\<lparr>date = 5, dossier = ''101'', nom = Some ''MARTIN P'', code = ''K-1'',
            source = MA_FACTURATION\<rparr>] @
          [\<lparr>date = 7, dossier = ''101'', nom = Some ''MARTIN'', code = ''K-1'',
            source = MA_FACTURATION\<rparr>]) =
   make_key `
     set [\<lparr>date = 5, dossier = ''101'', nom = Some ''MARTIN'', code = ''K-1'',
           source = MA_FACTURATION\<rparr>,
          \<lparr>date = 5, dossier = ''101'', nom = Some ''MARTIN P'', code = ''K-1'',
           source = MA_FACTURATION\<rparr>,
          \<lparr>date = 7, dossier = ''101'', nom = Some ''MARTIN'', code = ''K-1'',
           source = MA_FACTURATION\<rparr>]"
proof -
  have h: "compare_records
     [\<lparr>date = 5, dossier = ''101'', nom = Some ''MARTIN'', code = ''K-1'',
       source = MA_FACTURATION\<rparr>,
      \<lparr>date = 5, dossier = ''101'', nom = Some ''MARTIN P'', code = ''K-1'',
       source = MA_FACTURATION\<rparr>,
      \<lparr>date = 7, dossier = ''101'', nom = Some ''MARTIN'', code = ''K-1'',
       source = MA_FACTURATION\<rparr>]
     [\<lparr>date = 5, dossier = ''101'', nom = Some ''MARTIN'', code = ''K-1'',
       source = RAPPORT_HOPITAL\<rparr>,
      \<lparr>date = 6, dossier = ''101'', nom = Some ''MARTIN'', code = ''M 6'',
       source = RAPPORT_HOPITAL\<rparr>]
   = ([\<lparr>date = 5, dossier = ''101'', nom = Some ''MARTIN P'', code = ''K-1'',
        source = MA_FACTURATION\<rparr>],
      [\<lparr>date = 7, dossier = ''101'', nom = Some ''MARTIN'', code = ''K-1'',
        source = MA_FACTURATION\<rparr>],
      [\<lparr>date = 6, dossier = ''101'', nom = Some ''MARTIN'', code = ''M 6'',
        source = RAPPORT_HOPITAL\<rparr>])"
    by code_simp
  from compare_records_partition [OF h] h show ?thesis by blast
qed



section \<open>Properties of the extractors\<close>

lemma match_date_Nil [simp]: "match_date [] = None"
  by (simp add: match_date_def)

lemma my_row_Cons:
  "my_row (cd, recs) (c0 # cs) =
     (let current_date = (case cell_day c0 of Some d \<Rightarrow> Some d | None \<Rightarrow> cd) in
      case current_date of
        None \<Rightarrow> Inr (None, recs)
      | Some day \<Rightarrow>
          if truthy (cell_at (c0 # cs) 1) \<and> truthy (cell_at (c0 # cs) 2) \<and>
             truthy (cell_at (c0 # cs) 3) \<and> day \<noteq> 0
          then Inr (Some day,
                 recs @
                 map (\<lambda>code. \<lparr>date = day, dossier = dossier_text (cell_at (c0 # cs) 1),
                               nom = Some (normalize_name (str_cell (cell_at (c0 # cs) 2))),
                               code = normalize_code code,
                               source = MA_FACTURATION\<rparr>)
                     (parse_billing_code (str_cell (cell_at (c0 # cs) 3))))
          else Inr (Some day, recs))"
  by (cases c0) (auto simp: my_row_def Let_def split: option.splits)



lemma strip_Nil [simp]: "strip [] = []" by (simp add: strip_def)
lemma upper_Nil [simp]: "upper [] = []" by (simp add: upper_def)



lemma cell_at_0 [simp]: "cell_at (c # cs) 0 = c"
  by (simp add: cell_at_def)

lemma cell_at_Nil [simp]: "cell_at [] i = Blank"
  by (simp add: cell_at_def)






lemma str_nat_nonempty: "str_nat n \<noteq> []"
  by (subst str_nat.simps) simp

lemma str_int_nonempty: "str_int i \<noteq> []"
  by (simp add: str_int_def str_nat_nonempty)

lemma dossier_text_nonempty: "truthy c \<Longrightarrow> cell_ok c \<Longrightarrow> dossier_text c \<noteq> []"
proof (cases c)
  case (FloatC x t)
  then show ?thesis by (simp add: str_int_nonempty)
next
  case (IntC i)
  assume "truthy c"
  with IntC show ?thesis by (simp add: str_int_nonempty)
next
  case (StrC s)
  assume "truthy c"
  with StrC show ?thesis by simp
next
  case (DateC d t)
  assume "cell_ok c"
  with DateC show ?thesis by simp
next
  case Blank
  assume "truthy c"
  with Blank show ?thesis by simp
qed

lemma parse_billing_code_atomic: "set (parse_billing_code x) \<subseteq> set atomic_codes"
  unfolding parse_billing_code_filter atomic_codes_def by (rule filter_is_subset)

lemma normalize_code_atomic_each:
  "normalize_code ''M 24'' = ''M 24''"
  "normalize_code ''M 6'' = ''M 6''"
  "normalize_code ''K-1'' = ''K-1''"
  "normalize_code ''RECOND'' = ''RECOND''"
  "normalize_code ''K3/4'' = ''K3/4''"
  "normalize_code ''K 20'' = ''K 20''"
  "normalize_code ''K 15'' = ''K 15''"
  by code_simp+

lemma normalize_code_atomic: "c \<in> set atomic_codes \<Longrightarrow> normalize_code c = c"
  unfolding atomic_codes_def using normalize_code_atomic_each by auto

lemma is_digit_val: "is_digit c \<Longrightarrow> (of_char c :: nat) - 48 \<le> 9"
  by (auto simp: is_digit_def)

lemma digits12_shape:
  "digits12 s = Some (ds, r) \<Longrightarrow>
     (\<exists>a. ds = [a] \<and> is_digit a) \<or> (\<exists>a b. ds = [a, b] \<and> is_digit a \<and> is_digit b)"
  by (induction s rule: digits12.induct) (auto split: if_splits)

lemma match_date_le: "match_date s = Some d \<Longrightarrow> d \<le> 99"
proof -
  assume m: "match_date s = Some d"
  then obtain ds r where ds: "digits12 s = Some (ds, r)" and d: "d = int_of_digits ds"
    by (auto simp: match_date_def split: option.splits if_splits)
  from digits12_shape [OF ds] show ?thesis
  proof
    assume "\<exists>a. ds = [a] \<and> is_digit a"
    then obtain a where "ds = [a]" "is_digit a" by blast
    with d is_digit_val [of a] show ?thesis by (simp add: int_of_digits_def)
  next
    assume "\<exists>a b. ds = [a, b] \<and> is_digit a \<and> is_digit b"
    then obtain a b where "ds = [a, b]" "is_digit a" "is_digit b" by blast
    with d is_digit_val [of a] is_digit_val [of b] show ?thesis
      by (simp add: int_of_digits_def)
  qed
qed

lemma cell_day_le: "cell_ok c \<Longrightarrow> cell_day c = Some d \<Longrightarrow> d \<le> 99"
  by (cases c) (auto dest: match_date_le)

lemma cell_at_ok: "\<forall>c \<in> set row. cell_ok c \<Longrightarrow> cell_ok (cell_at row i)"
  by (simp add: cell_at_def)

lemma my_row_good:
  assumes ok: "\<forall>c \<in> set (c0 # cs). cell_ok c"
    and cd: "\<forall>d. cd = Some d \<longrightarrow> d \<le> 99"
    and g: "\<forall>r \<in> set recs. good_my r"
  shows "\<exists>cd' recs'. my_row (cd, recs) (c0 # cs) = Inr (cd', recs') \<and>
           (\<forall>d. cd' = Some d \<longrightarrow> d \<le> 99) \<and> (\<forall>r \<in> set recs'. good_my r)"
proof -
  let ?row = "c0 # cs"
  let ?cd' = "case cell_day c0 of Some d \<Rightarrow> Some d | None \<Rightarrow> cd"
  have c0: "cell_ok c0" using ok by simp
  have cd': "\<forall>d. ?cd' = Some d \<longrightarrow> d \<le> 99"
    using cd cell_day_le [OF c0] by (auto split: option.splits)
  have dt: "truthy (cell_at ?row 1) \<Longrightarrow> dossier_text (cell_at ?row 1) \<noteq> []"
    by (simp add: dossier_text_nonempty cell_at_ok [OF ok])
  have codes: "c \<in> set (parse_billing_code x) \<Longrightarrow> normalize_code c \<in> set atomic_codes" for c x
    using parse_billing_code_atomic [of x] normalize_code_atomic [of c] by auto
  show ?thesis
    unfolding my_row_Cons Let_def using cd' g dt codes
    by (auto simp: good_my_def split: option.splits)
qed

lemma my_rows_good:
  assumes "\<forall>row \<in> set rows. row \<noteq> [] \<and> (\<forall>c \<in> set row. cell_ok c)"
    and "\<forall>d. cd = Some d \<longrightarrow> d \<le> 99"
    and "\<forall>r \<in> set recs. good_my r"
  shows "\<exists>cd' recs'. my_rows (cd, recs) rows = Inr (cd', recs') \<and> (\<forall>r \<in> set recs'. good_my r)"
  using assms
proof (induction rows arbitrary: cd recs)
  case Nil
  then show ?case by simp
next
  case (Cons row rows)
  then obtain c0 cs where row: "row = c0 # cs" by (cases row) auto
  with Cons.prems(1) have ok: "\<forall>c \<in> set (c0 # cs). cell_ok c" by simp
  from my_row_good [OF ok Cons.prems(2,3)] obtain cd1 recs1 where
    1: "my_row (cd, recs) row = Inr (cd1, recs1)" and
    2: "\<forall>d. cd1 = Some d \<longrightarrow> d \<le> 99" and 3: "\<forall>r \<in> set recs1. good_my r"
    unfolding row by blast
  from Cons.prems(1) have "\<forall>row \<in> set rows. row \<noteq> [] \<and> (\<forall>c \<in> set row. cell_ok c)" by simp
  from Cons.IH [OF this 2 3] 1 show ?case by simp
qed

lemma billed_days_range: "day \<in> set (billed_days row) \<Longrightarrow> 1 \<le> day \<and> day \<le> 31"
  by (auto simp: billed_days_def)

lemma hosp_row_good:
  assumes inv: "cdos \<noteq> None \<longrightarrow> cn \<noteq> None"
    and g: "\<forall>r \<in> set recs. good_hosp r"
  shows "\<exists>cn' cdos' recs'. hosp_row (cn, cdos, recs) (c0 # cs) = Inr (cn', cdos', recs') \<and>
           (cdos' \<noteq> None \<longrightarrow> cn' \<noteq> None) \<and> (\<forall>r \<in> set recs'. good_hosp r)"
  using assms billed_days_range [of _ "c0 # cs"]
  by (auto simp: hosp_row_def Let_def good_hosp_def split: option.splits)

lemma hosp_rows_good:
  assumes "\<forall>row \<in> set rows. row \<noteq> []"
    and "cdos \<noteq> None \<longrightarrow> cn \<noteq> None"
    and "\<forall>r \<in> set recs. good_hosp r"
  shows "\<exists>cn' cdos' recs'. hosp_rows (cn, cdos, recs) rows = Inr (cn', cdos', recs') \<and>
           (\<forall>r \<in> set recs'. good_hosp r)"
  using assms
proof (induction rows arbitrary: cn cdos recs)
  case Nil
  then show ?case by simp
next
  case (Cons row rows)
  then obtain c0 cs where row: "row = c0 # cs" by (cases row) auto
  from hosp_row_good [OF Cons.prems(2,3)] obtain cn1 cdos1 recs1 where
    1: "hosp_row (cn, cdos, recs) row = Inr (cn1, cdos1, recs1)" and
    2: "cdos1 \<noteq> None \<longrightarrow> cn1 \<noteq> None" and 3: "\<forall>r \<in> set recs1. good_hosp r"
    unfolding row by blast
  from Cons.prems(1) have "\<forall>row \<in> set rows. row \<noteq> []" by simp
  from Cons.IH [OF this 2 3] 1 show ?case by simp
qed











text \<open>
  Claim C6 as stated fails: a name or a facility code made of whitespace or commas
  passes the presence test and is normalized to the empty text, and a date text can
  give a day beyond 31.
\<close>

theorem emitted_fields_can_be_empty:
  "parse_my_billing [[StrC ''45/01/2024'', IntC 102, StrC '' '', StrC ''K-1'']] =
     Inr [\<lparr>date = 45, dossier = ''102'', nom = Some [], code = ''K-1'',
           source = MA_FACTURATION\<rparr>] \<and>
   parse_hospital_report [[StrC '','', IntC 102, StrC '' '', Blank, Blank, Blank, StrC ''x'']] =
     Inr [\<lparr>date = 1, dossier = ''102'', nom = Some [], code = [],
           source = RAPPORT_HOPITAL\<rparr>]"
  by code_simp

text \<open>
  Claim C6, amended. On a table of non-empty rows whose native dates are well formed,
  both extractors return, and every record has a non-empty file number, a defined name
  and a day of at least 1: at most 31 in the facility report, at most 99 in the
  personal log, whose codes are atomic codes of the vocabulary. A personal-log row
  lacking its file number, name or code cell emits nothing, and a facility row lacking
  its code cell emits nothing.
\<close>

theorem emitted_records_fields:
  assumes "\<forall>row \<in> set df. row \<noteq> [] \<and> (\<forall>c \<in> set row. cell_ok c)"
  shows "(\<exists>recs. parse_my_billing df = Inr recs \<and>
            (\<forall>r \<in> set recs. dossier r \<noteq> [] \<and> nom r \<noteq> None \<and> code r \<in> set atomic_codes \<and>
                1 \<le> date r \<and> date r \<le> 99)) \<and>
         (\<exists>recs. parse_hospital_report df = Inr recs \<and>
            (\<forall>r \<in> set recs. dossier r \<noteq> [] \<and> nom r \<noteq> None \<and> 1 \<le> date r \<and> date r \<le> 31)) \<and>
         (\<forall>row \<in> set df.
            (\<not> truthy (cell_at row 1) \<or> \<not> truthy (cell_at row 2) \<or> \<not> truthy (cell_at row 3) \<longrightarrow>
               (\<exists>cd'. my_row (cd, recs0) row = Inr (cd', recs0))) \<and>
            (\<not> truthy (cell_at row 2) \<longrightarrow>
               (\<exists>cn' cdos'. hosp_row (cn, cdos, recs0) row = Inr (cn', cdos', recs0))))"
proof (intro conjI ballI)
  from my_rows_good [of df None "[]"] assms obtain cd' recs where
    "my_rows (None, []) df = Inr (cd', recs)" "\<forall>r \<in> set recs. good_my r"
    by auto
  then show "\<exists>recs. parse_my_billing df = Inr recs \<and>
            (\<forall>r \<in> set recs. dossier r \<noteq> [] \<and> nom r \<noteq> None \<and> code r \<in> set atomic_codes \<and>
                1 \<le> date r \<and> date r \<le> 99)"
    by (auto simp: parse_my_billing_def good_my_def)
next
  from hosp_rows_good [of df None None "[]"] assms obtain cn' cdos' recs where
    "hosp_rows (None, None, []) df = Inr (cn', cdos', recs)" "\<forall>r \<in> set recs. good_hosp r"
    by auto
  then show "\<exists>recs. parse_hospital_report df = Inr recs \<and>
            (\<forall>r \<in> set recs. dossier r \<noteq> [] \<and> nom r \<noteq> None \<and> 1 \<le> date r \<and> date r \<le> 31)"
    by (auto simp: parse_hospital_report_def good_hosp_def)
next
  fix row assume "row \<in> set df"
  with assms obtain c0 cs where row: "row = c0 # cs" by (cases row) auto
  show "\<not> truthy (cell_at row 1) \<or> \<not> truthy (cell_at row 2) \<or> \<not> truthy (cell_at row 3) \<longrightarrow>
               (\<exists>cd'. my_row (cd, recs0) row = Inr (cd', recs0))"
    unfolding row my_row_Cons by (auto simp: Let_def split: option.splits)
  show "\<not> truthy (cell_at row 2) \<longrightarrow>
               (\<exists>cn' cdos'. hosp_row (cn, cdos, recs0) row = Inr (cn', cdos', recs0))"
    unfolding row by (auto simp: hosp_row_def Let_def is_header_def split: option.splits)
qed

theorem emitted_records_fields_witness:
  "list_all (\<lambda>row. row \<noteq> [] \<and> list_all cell_ok row)
     [[DateC 5 ''2024-01-05 00:00:00'', IntC 102, StrC ''Dupont'', StrC ''K-1'',
       Blank, Blank, StrC ''1'']] \<and>
   parse_my_billing [[DateC 5 ''2024-01-05 00:00:00'', IntC 102, StrC ''Dupont'', StrC ''K-1'',
                      Blank, Blank, StrC ''1'']] =
     Inr [\<lparr>date = 5, dossier = ''102'', nom = Some ''DUPONT'', code = ''K-1'',
           source = MA_FACTURATION\<rparr>] \<and>
   (\<exists>recs. parse_hospital_report
        [[DateC 5 ''2024-01-05 00:00:00'', IntC 102, StrC ''Dupont'', StrC ''K-1'',
          Blank, Blank, StrC ''1'']] = Inr recs \<and>
      (\<forall>r \<in> set recs. dossier r \<noteq> [] \<and> nom r \<noteq> None \<and> 1 \<le> date r \<and> date r \<le> 31))"
proof -
  let ?df = "[[DateC 5 ''2024-01-05 00:00:00'', IntC 102, StrC ''Dupont'', StrC ''K-1'',
               Blank, Blank, StrC ''1'']]"
  have h: "\<forall>row \<in> set ?df. row \<noteq> [] \<and> (\<forall>c \<in> set row. cell_ok c)" by simp
  have e: "parse_my_billing ?df =
     Inr [\<lparr>date = 5, dossier = ''102'', nom = Some ''DUPONT'', code = ''K-1'',
           source = MA_FACTURATION\<rparr>]"
    by code_simp
  have l: "list_all (\<lambda>row. row \<noteq> [] \<and> list_all cell_ok row) ?df" by simp
  from emitted_records_fields [OF h] l e show ?thesis by blast
qed

end
